theory Spec2Isabelle
  imports Complex_Main "HOL-Library.Sublist"
begin

section \<open>Strings\<close>

text \<open>
  The question, the keywords and the rendered context are Python \<open>str\<close> values. They are
  modelled as \<^typ>\<open>string\<close>, one \<^typ>\<open>char\<close> per code point, which covers the code
  points below 256 (Latin-1); \<open>length\<close> is then Python's \<open>len\<close>. The functions
  of \<open>str\<close> the program calls are written out for that range. White space is given for
  every code point, since the text that \<open>clean_text\<close> cleans is a list of code points.
\<close>

definition lower_char :: "char \<Rightarrow> char" where
  \<comment> \<open>\<open>str.lower\<close> on one code point below 256: A-Z and the capital letters
      U+00C0-U+00DE (U+00D7, the multiplication sign, is no letter) move up by 32.\<close>
  "lower_char c =
     (let n = (of_char c :: nat)
      in if (65 \<le> n \<and> n \<le> 90) \<or> (192 \<le> n \<and> n \<le> 222 \<and> n \<noteq> 215)
         then char_of (n + 32) else c)"

definition lower :: "string \<Rightarrow> string" where
  "lower s = map lower_char s"

definition isspace :: "nat \<Rightarrow> bool" where
  \<comment> \<open>\<open>str.isspace\<close> on one code point, which is also what \<open>str.split()\<close>,
      \<open>str.strip()\<close> and the class \<open>\s\<close> of \<open>re\<close> take as white space: TAB, LF, VT,
      FF, CR, the separators U+001C-U+001F, the space, NEL (U+0085), the no-break space
      (U+00A0), U+1680, U+2000-U+200A, U+2028, U+2029, U+202F, U+205F and U+3000.\<close>
  "isspace n \<longleftrightarrow>
     (9 \<le> n \<and> n \<le> 13) \<or> (28 \<le> n \<and> n \<le> 32) \<or> n = 133 \<or> n = 160 \<or> n = 5760
     \<or> (8192 \<le> n \<and> n \<le> 8202) \<or> n = 8232 \<or> n = 8233 \<or> n = 8239 \<or> n = 8287
     \<or> n = 12288"

definition isspace_char :: "char \<Rightarrow> bool" where
  "isspace_char c = isspace (of_char c)"

definition strip_by :: "('a \<Rightarrow> bool) \<Rightarrow> 'a list \<Rightarrow> 'a list" where
  \<comment> \<open>\<open>s.strip()\<close>: the characters that are white space removed at both ends.\<close>
  "strip_by space s = rev (dropWhile space (rev (dropWhile space s)))"

definition strip :: "string \<Rightarrow> string" where
  "strip s = strip_by isspace_char s"

fun startswith :: "string \<Rightarrow> string \<Rightarrow> bool" where
  \<comment> \<open>\<open>s.startswith(p)\<close>\<close>
  "startswith s [] = True"
| "startswith [] (p # ps) = False"
| "startswith (c # cs) (p # ps) = (c = p \<and> startswith cs ps)"

fun str_in :: "string \<Rightarrow> string \<Rightarrow> bool" where
  \<comment> \<open>\<open>w in s\<close> on two strings: \<open>w\<close> occurs in \<open>s\<close> as a substring.\<close>
  "str_in w [] = (w = [])"
| "str_in w (c # cs) = (startswith (c # cs) w \<or> str_in w cs)"

definition any_in :: "string list \<Rightarrow> string \<Rightarrow> bool" where
  \<comment> \<open>\<open>any(word in s for word in words)\<close>\<close>
  "any_in words s = list_ex (\<lambda>word. str_in word s) words"


section \<open>Classification of a question (\<open>utils.categorize_question\<close>)\<close>

definition safety_words :: "string list" where
  "safety_words = [''safe'', ''hazard'', ''danger'', ''toxic'', ''risk'', ''accident'', ''emergency'']"

definition calc_words :: "string list" where
  "calc_words = [''calculate'', ''compute'', ''find'', ''determine'', ''solve'', ''how much'', ''what is the'']"

definition design_words :: "string list" where
  "design_words = [''design'', ''size'', ''select'', ''choose'', ''optimize'', ''specify'']"

definition theory_words :: "string list" where
  "theory_words = [''explain'', ''what is'', ''how does'', ''why'', ''difference'', ''compare'']"

definition categorize_question :: "string \<Rightarrow> string" where
  "categorize_question question =
     (let question_lower = lower question
      in if any_in safety_words question_lower then ''safety''
         else if any_in calc_words question_lower then ''calculation''
         else if any_in design_words question_lower then ''design''
         else if any_in theory_words question_lower then ''theory''
         else ''general'')"


section \<open>The search engine (\<open>ChemESearchEngine\<close>)\<close>

text \<open>
  A search result is a Python dictionary with the keys \<open>title\<close>, \<open>url\<close>, \<open>snippet\<close>,
  \<open>source\<close> and \<open>priority\<close>. The code reads a result only through
  \<open>result.get(key, default)\<close>, so a key may be missing: the fields read that way are
  options, and the \<open>get_\<close> functions below supply the defaults of the source.
\<close>

record candidate =
  title :: string
  url :: "string option"
  snippet :: "string option"
  source :: "string option"
  priority :: "int option"

definition get_url :: "candidate \<Rightarrow> string" where
  \<comment> \<open>\<open>result.get('url', '')\<close>\<close>
  "get_url result = (case url result of None \<Rightarrow> [] | Some u \<Rightarrow> u)"

definition get_priority :: "candidate \<Rightarrow> int" where
  \<comment> \<open>\<open>x.get('priority', 0)\<close>\<close>
  "get_priority x = (case priority x of None \<Rightarrow> 0 | Some p \<Rightarrow> p)"

definition get_snippet :: "candidate \<Rightarrow> string" where
  \<comment> \<open>\<open>result.get('snippet', '')\<close>\<close>
  "get_snippet result = (case snippet result of None \<Rightarrow> [] | Some t \<Rightarrow> t)"

definition get_source :: "candidate \<Rightarrow> string" where
  \<comment> \<open>\<open>result.get('source', 'Web')\<close>\<close>
  "get_source result = (case source result of None \<Rightarrow> ''Web'' | Some l \<Rightarrow> l)"

fun unique_loop :: "string set \<Rightarrow> candidate list \<Rightarrow> candidate list \<Rightarrow> candidate list" where
  \<comment> \<open>The \<open>for result in results\<close> loop of \<open>_deduplicate_results\<close>, with its two
      variables \<open>seen_urls\<close> and \<open>unique_results\<close>; an empty string is falsy.\<close>
  "unique_loop seen_urls unique_results [] = unique_results"
| "unique_loop seen_urls unique_results (result # results) =
     (let u = get_url result
      in if u \<noteq> [] \<and> u \<notin> seen_urls
         then unique_loop (insert u seen_urls) (unique_results @ [result]) results
         else unique_loop seen_urls unique_results results)"

definition sorted_reverse :: "('a \<Rightarrow> int) \<Rightarrow> 'a list \<Rightarrow> 'a list" where
  \<comment> \<open>\<open>sorted(xs, key=key, reverse=True)\<close>: the list is reversed, sorted by a stable
      ascending sort and reversed again, so equal keys keep their order.\<close>
  "sorted_reverse key xs = rev (sort_key key (rev xs))"

definition deduplicate_results :: "candidate list \<Rightarrow> candidate list" where
  "deduplicate_results results = sorted_reverse get_priority (unique_loop {} [] results)"

definition educational_content :: "(string \<times> candidate) list" where
  \<comment> \<open>The dictionary literal of \<open>_search_educational_sites\<close>, in insertion order.\<close>
  "educational_content =
     [(''distillation'',
       \<lparr>title = ''Distillation - Chemical Engineering'',
        url = Some ''https://en.wikipedia.org/wiki/Distillation'',
        snippet = Some ''Distillation is a separation process that exploits differences in volatility of components in a liquid mixture.'',
        source = Some ''Educational'',
        priority = Some 7\<rparr>),
      (''reactor'',
       \<lparr>title = ''Chemical Reactor Design'',
        url = Some ''https://en.wikipedia.org/wiki/Chemical_reactor'',
        snippet = Some ''A chemical reactor is an enclosed volume in which a chemical reaction takes place.'',
        source = Some ''Educational'',
        priority = Some 7\<rparr>),
      (''heat exchanger'',
       \<lparr>title = ''Heat Exchanger Design'',
        url = Some ''https://en.wikipedia.org/wiki/Heat_exchanger'',
        snippet = Some ''A heat exchanger is a system used to transfer heat between two or more fluids.'',
        source = Some ''Educational'',
        priority = Some 7\<rparr>)]"

definition search_educational_sites :: "string \<Rightarrow> candidate list" where
  "search_educational_sites query =
     (let query_lower = lower query
      in map snd (filter (\<lambda>(topic, content). str_in topic query_lower) educational_content))"

definition max_results :: nat where
  "max_results = 5"

text \<open>
  \<open>_search_wikipedia\<close> asks a remote service and catches every exception itself, so it
  always returns a list of results; what the list holds is decided outside the program. It is
  the parameter \<open>search_wikipedia\<close> of the functions that call it.
\<close>

definition scrape_search_results :: "(string \<Rightarrow> candidate list) \<Rightarrow> string \<Rightarrow> candidate list" where
  "scrape_search_results search_wikipedia query =
     (let results = search_wikipedia query @ search_educational_sites query;
          unique_results = deduplicate_results results
      in take max_results unique_results)"

definition search_web :: "(string \<Rightarrow> candidate list) \<Rightarrow> string \<Rightarrow> candidate list" where
  "search_web search_wikipedia query =
     (let enhanced_query = query @ '' chemical engineering''
      in scrape_search_results search_wikipedia enhanced_query)"

fun join :: "'a list \<Rightarrow> 'a list list \<Rightarrow> 'a list" where
  \<comment> \<open>\<open>sep.join(parts)\<close>\<close>
  "join sep [] = []"
| "join sep [x] = x"
| "join sep (x # y # ys) = x @ sep @ join sep (y # ys)"

fun context_parts :: "candidate list \<Rightarrow> string list" where
  \<comment> \<open>The loop of \<open>get_relevant_context\<close> over the results it was given.\<close>
  "context_parts [] = []"
| "context_parts (result # results) =
     (let snip = get_snippet result
      in if snip \<noteq> []
         then (''From '' @ get_source result @ '': '' @ snip) # context_parts results
         else context_parts results)"

definition get_relevant_context :: "(string \<Rightarrow> candidate list) \<Rightarrow> string \<Rightarrow> string" where
  "get_relevant_context search_wikipedia query =
     (let search_results = search_web search_wikipedia query
      in if search_results = [] then []
         else join ''\<newline>\<newline>'' (context_parts (take 3 search_results)))"


section \<open>Validation of a question (\<open>utils.validate_input\<close>)\<close>

definition inappropriate_words :: "string list" where
  "inappropriate_words = [''spam'', ''test123'', ''asdf'']"

definition validate_input :: "string \<Rightarrow> bool \<times> string" where
  "validate_input question =
     (if question = [] \<or> strip question = [] then
        (False, ''Please enter a question.'')
      else if length (strip question) < 3 then
        (False, ''Please enter a more detailed question.'')
      else if length question > 1000 then
        (False, ''Question is too long. Please keep it under 1000 characters.'')
      else if any_in inappropriate_words (lower question) then
        (False, ''Please enter a genuine chemical engineering question.'')
      else (True, []))"


section \<open>Formatting a response (\<open>utils.format_response_for_display\<close>)\<close>

fun split_blank :: "string \<Rightarrow> string \<Rightarrow> string list" where
  \<comment> \<open>\<open>s.split('\n\n')\<close>; the first argument is the piece read so far.\<close>
  "split_blank cur [] = [cur]"
| "split_blank cur [c] = [cur @ [c]]"
| "split_blank cur (c # d # s) =
     (if c = CHR ''\<newline>'' \<and> d = CHR ''\<newline>'' then cur # split_blank [] s
      else split_blank (cur @ [c]) (d # s))"

fun split_lines :: "string \<Rightarrow> string \<Rightarrow> string list" where
  \<comment> \<open>\<open>s.split('\n')\<close>; the first argument is the piece read so far.\<close>
  "split_lines cur [] = [cur]"
| "split_lines cur (c # s) =
     (if c = CHR ''\<newline>'' then cur # split_lines [] s else split_lines (cur @ [c]) s)"

definition endswith :: "string \<Rightarrow> string \<Rightarrow> bool" where
  "endswith s p = startswith (rev s) (rev p)"

definition format_section :: "string \<Rightarrow> string" where
  \<comment> \<open>The body of the loop over the sections, for a stripped, non-empty section;
      \<open>section[2:-2]\<close> is \<open>drop 2 (take (length section - 2) section)\<close>. Every branch of
      the loop over the lines appends the stripped line.\<close>
  "format_section section0 =
     (let section1 =
            (if startswith section0 ''**'' \<and> endswith section0 ''**''
             then ''\<newline>### '' @ drop 2 (take (length section0 - 2) section0) @ ''\<newline>''
             else section0);
          lines = split_lines [] section1;
          formatted_lines = map strip lines
      in join ''\<newline>'' formatted_lines)"

definition format_response_for_display :: "string \<Rightarrow> string" where
  "format_response_for_display response =
     (if response = [] then ''No response generated.''
      else let sections = split_blank [] response;
               formatted_sections = map format_section (filter (\<lambda>s. s \<noteq> []) (map strip sections))
           in join ''\<newline>\<newline>'' formatted_sections)"


section \<open>The bot (\<open>ChemEBot\<close>)\<close>

function findall_from :: "string \<Rightarrow> string list" where
  \<comment> \<open>\<open>re.findall(r'From ([^:]+):', s)\<close>: the text is scanned from the left; at a
      position where \<open>From \<close> starts, the longest run of characters other than a colon is
      the label, and it matches when it is not empty and a colon follows it; the scan goes on
      after that colon, and one position further where there is no match.\<close>
  "findall_from [] = []"
| "findall_from (c # cs) =
     (if startswith (c # cs) ''From '' then
        (let rest = drop 5 (c # cs);
             label = takeWhile (\<lambda>x. x \<noteq> CHR '':'') rest;
             after = dropWhile (\<lambda>x. x \<noteq> CHR '':'') rest
         in if label \<noteq> [] \<and> after \<noteq> [] then label # findall_from (tl after)
            else findall_from cs)
      else findall_from cs)"
  by pat_completeness auto
termination
proof (relation "measure length")
  show "wf (measure length)" by simp
next
  fix c :: char and cs rest label after :: string
  assume rest: "rest = drop 5 (c # cs)"
    and after: "after = dropWhile (\<lambda>x. x \<noteq> CHR '':'') rest"
    and found: "label \<noteq> [] \<and> after \<noteq> []"
  from found have "length (tl after) < length after"
    by (cases after) simp_all
  moreover have "length after \<le> length rest"
    unfolding after by (rule length_dropWhile_le)
  moreover have "length rest \<le> length (c # cs)"
    unfolding rest by simp
  ultimately show "(tl after, c # cs) \<in> measure length" by simp
qed simp_all

definition extract_sources_from_context :: "string \<Rightarrow> string list" where
  \<comment> \<open>\<open>list(set(sources))\<close> holds each label once, in an order Python does not fix;
      \<open>remdups\<close> stands for one such order, and no property below depends on it.\<close>
  "extract_sources_from_context web_context =
     remdups (map strip (findall_from web_context))"

record response =
  answer :: string
  sources :: "string list"
  question_type :: string
  processing_time :: real
  web_context_used :: "bool option"
  error :: "string option"

record turn =
  turn_question :: string
  turn_answer :: string
  turn_question_type :: string
  turn_sources :: "string list"
  turn_timestamp :: real

record log_entry =
  log_question :: string
  response_length :: nat
  sources_count :: nat
  log_timestamp :: string

text \<open>
  What \<open>ask\<close> does outside the program is written into the state: \<open>calls\<close> lists, in
  order, the readings of the clock, the web searches and the completion requests made so far.
  The answers of the outside world are the fields of \<open>env\<close>: the results of the Wikipedia
  provider, the outcome of a completion request (the text, or the message of the exception it
  raised), the clock, and the Streamlit session (the time it holds, and the message of the
  exception an access to it raises, if it does). The prompt sent to the model is a function
  of the question, its type and the context, so the completion is given in terms of these.
\<close>

datatype call = Time | WebSearch string | Completion string string string

text \<open>
  \<open>__init__\<close> sets \<open>conversation_history\<close> only after the model was created: where that
  failed the bot has \<open>is_initialized = False\<close> and no attribute \<open>conversation_history\<close>
  (until \<open>clear_history\<close> sets one). The field is \<open>None\<close> for the missing attribute, and
  reading it then raises the \<open>AttributeError\<close> whose message is \<open>no_history_message\<close>.
\<close>

definition no_history_message :: string where
  "no_history_message =
     [CHR 0x27] @ ''ChemEBot'' @ [CHR 0x27] @ '' object has no attribute ''
     @ [CHR 0x27] @ ''conversation_history'' @ [CHR 0x27]"

record bot_state =
  is_initialized :: bool
  conversation_history :: "turn list option"
  interaction_log :: "log_entry list"
  calls :: "call list"

record env =
  wikipedia :: "string \<Rightarrow> candidate list"
  generate_content :: "string \<Rightarrow> string \<Rightarrow> string \<Rightarrow> string + string"
  clock :: "nat \<Rightarrow> real"
  current_time :: string
  session_error :: "string option"

definition time_time :: "env \<Rightarrow> bot_state \<Rightarrow> real \<times> bot_state" where
  \<comment> \<open>\<open>time.time()\<close>\<close>
  "time_time e st = (clock e (length (calls st)), st\<lparr>calls := calls st @ [Time]\<rparr>)"

definition generate_ai_response ::
  "env \<Rightarrow> bot_state \<Rightarrow> string \<Rightarrow> string \<Rightarrow> string \<Rightarrow> string \<times> bot_state" where
  "generate_ai_response e st question qtype web_context =
     (if \<not> is_initialized st then
        (''Sorry, the AI system is not properly initialized. Please check the API configuration.'', st)
      else
        (let st' = st\<lparr>calls := calls st @ [Completion question qtype web_context]\<rparr>
         in case generate_content e question qtype web_context of
              Inr text \<Rightarrow>
                (if text \<noteq> [] then text
                 else ''I apologize, but I couldn't generate a response to your question. Please try rephrasing it or asking a different question.'',
                 st')
            | Inl msg \<Rightarrow>
                (''I encountered an error while generating the response: '' @ msg @ ''. Please try again.'',
                 st')))"

definition log_interaction ::
  "env \<Rightarrow> bot_state \<Rightarrow> string \<Rightarrow> string \<Rightarrow> string list \<Rightarrow> string + bot_state" where
  \<comment> \<open>\<open>Inl\<close> is the exception raised by the session state.\<close>
  "log_interaction e st question response srcs =
     (case session_error e of
        Some msg \<Rightarrow> Inl msg
      | None \<Rightarrow>
          (let log_entry = \<lparr>log_question = take 100 question,
                            response_length = length response,
                            sources_count = length srcs,
                            log_timestamp = current_time e\<rparr>;
               log = interaction_log st @ [log_entry]
           in Inr (st\<lparr>interaction_log :=
                        (if length log > 50 then drop (length log - 50) log else log)\<rparr>)))"

definition ask :: "env \<Rightarrow> bot_state \<Rightarrow> string \<Rightarrow> bool \<Rightarrow> response \<times> bot_state" where
  "ask e st question include_web_search =
     (let (is_valid, error_message) = validate_input question
      in if \<not> is_valid then
           (\<lparr>answer = error_message, sources = [], question_type = ''error'',
             processing_time = 0, web_context_used = None, error = None\<rparr>, st)
         else
           (let (start_time, st1) = time_time e st;
                qtype = categorize_question question;
                (web_context, st2) =
                  (if include_web_search
                   then (get_relevant_context (wikipedia e) question,
                         st1\<lparr>calls := calls st1 @ [WebSearch question]\<rparr>)
                   else ([], st1));
                srcs = (if include_web_search \<and> web_context \<noteq> []
                        then extract_sources_from_context web_context else []);
                (ai_response, st3) = generate_ai_response e st2 question qtype web_context;
                formatted_response = format_response_for_display ai_response;
                (end_time, st4) = time_time e st3
            in case log_interaction e st4 question ai_response srcs of
                 Inl msg \<Rightarrow>
                   (let (fail_time, st5) = time_time e st4
                    in (\<lparr>answer = ''I apologize, but I encountered an error while processing your question: '' @ msg,
                         sources = [], question_type = ''error'',
                         processing_time = fail_time - start_time,
                         web_context_used = None, error = Some msg\<rparr>, st5))
               | Inr st5 \<Rightarrow>
                   (case conversation_history st5 of
                      None \<Rightarrow>
                        (let (fail_time, st6) = time_time e st5
                         in (\<lparr>answer = ''I apologize, but I encountered an error while processing your question: ''
                                       @ no_history_message,
                              sources = [], question_type = ''error'',
                              processing_time = fail_time - start_time,
                              web_context_used = None, error = Some no_history_message\<rparr>, st6))
                    | Some history \<Rightarrow>
                        (let (stamp, st6) = time_time e st5;
                             st7 = st6\<lparr>conversation_history := Some (history @
                                      [\<lparr>turn_question = question, turn_answer = formatted_response,
                                        turn_question_type = qtype, turn_sources = srcs,
                                        turn_timestamp = stamp\<rparr>])\<rparr>
                         in (\<lparr>answer = formatted_response, sources = srcs, question_type = qtype,
                              processing_time = end_time - start_time,
                              web_context_used = Some (web_context \<noteq> []), error = None\<rparr>, st7)))))"


section \<open>Cleaning fetched text (\<open>utils.clean_text\<close>)\<close>

text \<open>
  Fetched text holds any code point, and the pattern of \<open>clean_text\<close> itself names code
  points above 255 (the subscript digits and the arrows), so the text is a list of code
  points here. The class \<open>\w\<close> of \<open>re\<close> asks the Unicode database of the interpreter
  whether a code point is alphanumeric; that table is the parameter \<open>isalnum\<close>.
\<close>

definition codes :: "string \<Rightarrow> nat list" where
  \<comment> \<open>The code points of a string of the range below 256.\<close>
  "codes s = map of_char s"

fun split_ws :: "nat list \<Rightarrow> nat list \<Rightarrow> nat list list" where
  \<comment> \<open>\<open>text.split()\<close>: the words between runs of white space; the first argument is the
      word read so far.\<close>
  "split_ws cur [] = (if cur = [] then [] else [cur])"
| "split_ws cur (c # s) =
     (if isspace c then (if cur = [] then split_ws [] s else cur # split_ws [] s)
      else split_ws (cur @ [c]) s)"

definition kept_literals :: "nat list" where
  \<comment> \<open>The characters listed in the class after \<open>\w\s\<close>: parentheses, plus, minus, equals,
      slash, backslash, the degree sign, the subscript digits U+2080-U+2089 and the arrows
      U+2192, U+2190, U+2194.\<close>
  "kept_literals =
     [40, 41, 43, 45, 61, 47, 92, 176,
      8320, 8321, 8322, 8323, 8324, 8325, 8326, 8327, 8328, 8329,
      8594, 8592, 8596]"

definition word_char :: "(nat \<Rightarrow> bool) \<Rightarrow> nat \<Rightarrow> bool" where
  \<comment> \<open>\<open>\w\<close>: alphanumeric, or the underscore.\<close>
  "word_char isalnum c \<longleftrightarrow> isalnum c \<or> c = 95"

definition kept :: "(nat \<Rightarrow> bool) \<Rightarrow> nat \<Rightarrow> bool" where
  \<comment> \<open>The characters the negated class does not match.\<close>
  "kept isalnum c \<longleftrightarrow> word_char isalnum c \<or> isspace c \<or> c \<in> set kept_literals"

function collapse_ws :: "nat list \<Rightarrow> nat list" where
  \<comment> \<open>\<open>re.sub(r'\s+', ' ', text)\<close>: every longest run of white space becomes one space.\<close>
  "collapse_ws [] = []"
| "collapse_ws (c # s) =
     (if isspace c then 32 # collapse_ws (dropWhile isspace s) else c # collapse_ws s)"
  by pat_completeness auto
termination
proof (relation "measure length")
  show "wf (measure length)" by simp
next
  fix c :: nat and s :: "nat list"
  have "length (dropWhile isspace s) \<le> length s"
    by (rule length_dropWhile_le)
  then show "(dropWhile isspace s, c # s) \<in> measure length" by simp
qed simp

definition clean_text :: "(nat \<Rightarrow> bool) \<Rightarrow> nat list option \<Rightarrow> nat list" where
  \<comment> \<open>The argument is \<open>None\<close> for Python's \<open>None\<close>; \<open>not text\<close> holds for it and for the
      empty string.\<close>
  "clean_text isalnum text =
     (case text of
        None \<Rightarrow> []
      | Some t \<Rightarrow>
          if t = [] then []
          else (let t1 = join [32] (split_ws [] t);
                    t2 = map (\<lambda>c. if kept isalnum c then c else 32) t1;
                    t3 = collapse_ws t2
                in strip_by isspace t3))"

fun single_spaced :: "nat list \<Rightarrow> bool" where
  \<comment> \<open>Every white-space character is a space, and no two of them are adjacent.\<close>
  "single_spaced [] = True"
| "single_spaced [c] = (isspace c \<longrightarrow> c = 32)"
| "single_spaced (c # d # s) = ((isspace c \<longrightarrow> c = 32 \<and> \<not> isspace d) \<and> single_spaced (d # s))"

definition ascii_alnum :: "nat \<Rightarrow> bool" where
  \<comment> \<open>The alphanumeric code points below 128: the digits and the letters. It stands for
      the table of the interpreter where a text of that range is cleaned.\<close>
  "ascii_alnum c \<longleftrightarrow> (48 \<le> c \<and> c \<le> 57) \<or> (65 \<le> c \<and> c \<le> 90) \<or> (97 \<le> c \<and> c \<le> 122)"


section \<open>Substring containment\<close>

lemma startswith_prefix: "startswith s p \<longleftrightarrow> prefix p s"
  by (induction s p rule: startswith.induct) auto

lemma str_in_sublist: "str_in w s \<longleftrightarrow> sublist w s"
proof (induction s)
  case Nil
  show ?case by simp
next
  case (Cons c cs)
  show ?case
    by (simp add: Cons.IH startswith_prefix sublist_Cons_right)
qed

lemma any_in_sublist: "any_in words s \<longleftrightarrow> (\<exists>w \<in> set words. sublist w s)"
  by (simp add: any_in_def list_ex_iff str_in_sublist)


section \<open>Properties of the classification\<close>

text \<open>
  C1. The keyword lists are tested against the lower-cased question in the order safety,
  calculation, design, theory; a keyword matches when it is a substring. The first list with
  a match gives the category: a safety keyword always gives \<open>safety\<close> (so a question with a
  safety keyword and a calculation keyword is \<open>safety\<close>), and a question matching no list
  is \<open>general\<close>.
\<close>

theorem categorize_question_priority:
  "((\<exists>w \<in> set safety_words. sublist w (lower q)) \<longrightarrow> categorize_question q = ''safety'')
   \<and> ((\<exists>w \<in> set safety_words. sublist w (lower q)) \<and> (\<exists>w \<in> set calc_words. sublist w (lower q))
        \<longrightarrow> categorize_question q = ''safety'')
   \<and> (\<not> (\<exists>w \<in> set safety_words. sublist w (lower q)) \<and> (\<exists>w \<in> set calc_words. sublist w (lower q))
        \<longrightarrow> categorize_question q = ''calculation'')
   \<and> (\<not> (\<exists>w \<in> set (safety_words @ calc_words). sublist w (lower q))
        \<and> (\<exists>w \<in> set design_words. sublist w (lower q))
        \<longrightarrow> categorize_question q = ''design'')
   \<and> (\<not> (\<exists>w \<in> set (safety_words @ calc_words @ design_words). sublist w (lower q))
        \<and> (\<exists>w \<in> set theory_words. sublist w (lower q))
        \<longrightarrow> categorize_question q = ''theory'')
   \<and> (\<not> (\<exists>w \<in> set (safety_words @ calc_words @ design_words @ theory_words). sublist w (lower q))
        \<longrightarrow> categorize_question q = ''general'')"
  unfolding categorize_question_def Let_def any_in_sublist
  by (simp add: bex_Un)

theorem categorize_question_priority_witness:
  "(\<exists>w \<in> set safety_words. sublist w (lower ''Is it SAFE to calculate the flow?''))
   \<and> (\<exists>w \<in> set calc_words. sublist w (lower ''Is it SAFE to calculate the flow?''))
   \<and> categorize_question ''Is it SAFE to calculate the flow?'' = ''safety''
   \<and> categorize_question ''Find the duty and select a pump'' = ''calculation''
   \<and> categorize_question ''Size the pump and explain'' = ''design''
   \<and> categorize_question ''Why do columns flood?'' = ''theory''
   \<and> categorize_question ''Tell me about pumps'' = ''general''"
proof -
  have s1: "\<exists>w \<in> set safety_words. sublist w (lower ''Is it SAFE to calculate the flow?'')"
    unfolding any_in_sublist [symmetric] by code_simp
  have c1: "\<exists>w \<in> set calc_words. sublist w (lower ''Is it SAFE to calculate the flow?'')"
    unfolding any_in_sublist [symmetric] by code_simp
  have s2: "\<not> (\<exists>w \<in> set safety_words. sublist w (lower ''Find the duty and select a pump''))"
    unfolding any_in_sublist [symmetric] by code_simp
  have c2: "\<exists>w \<in> set calc_words. sublist w (lower ''Find the duty and select a pump'')"
    unfolding any_in_sublist [symmetric] by code_simp
  have n3: "\<not> (\<exists>w \<in> set (safety_words @ calc_words). sublist w (lower ''Size the pump and explain''))"
    unfolding any_in_sublist [symmetric] by code_simp
  have d3: "\<exists>w \<in> set design_words. sublist w (lower ''Size the pump and explain'')"
    unfolding any_in_sublist [symmetric] by code_simp
  have n4: "\<not> (\<exists>w \<in> set (safety_words @ calc_words @ design_words).
                 sublist w (lower ''Why do columns flood?''))"
    unfolding any_in_sublist [symmetric] by code_simp
  have t4: "\<exists>w \<in> set theory_words. sublist w (lower ''Why do columns flood?'')"
    unfolding any_in_sublist [symmetric] by code_simp
  have n5: "\<not> (\<exists>w \<in> set (safety_words @ calc_words @ design_words @ theory_words).
                 sublist w (lower ''Tell me about pumps''))"
    unfolding any_in_sublist [symmetric] by code_simp
  from categorize_question_priority [of "''Is it SAFE to calculate the flow?''"] s1 c1
  have r1: "categorize_question ''Is it SAFE to calculate the flow?'' = ''safety''" by blast
  from categorize_question_priority [of "''Find the duty and select a pump''"] s2 c2
  have r2: "categorize_question ''Find the duty and select a pump'' = ''calculation''" by blast
  from categorize_question_priority [of "''Size the pump and explain''"] n3 d3
  have r3: "categorize_question ''Size the pump and explain'' = ''design''" by blast
  from categorize_question_priority [of "''Why do columns flood?''"] n4 t4
  have r4: "categorize_question ''Why do columns flood?'' = ''theory''" by blast
  from categorize_question_priority [of "''Tell me about pumps''"] n5
  have r5: "categorize_question ''Tell me about pumps'' = ''general''" by blast
  from s1 c1 r1 r2 r3 r4 r5 show ?thesis by blast
qed

text \<open>
  C10. A question whose lower-cased text contains \<open>what is the\<close> (in particular a question
  that contains it as written) and no safety keyword is classified \<open>calculation\<close>, never
  \<open>theory\<close>, whatever theory keywords it also contains: \<open>what is the\<close> is a calculation
  keyword and the calculation list is tested before the theory list.
\<close>

theorem what_is_the_is_calculation:
  "(sublist ''what is the'' q \<or> sublist ''what is the'' (lower q))
   \<and> \<not> (\<exists>w \<in> set safety_words. sublist w (lower q))
   \<longrightarrow> categorize_question q = ''calculation'' \<and> categorize_question q \<noteq> ''theory''"
proof (intro impI, elim conjE)
  assume occ: "sublist ''what is the'' q \<or> sublist ''what is the'' (lower q)"
    and nosafe: "\<not> (\<exists>w \<in> set safety_words. sublist w (lower q))"
  have lw: "lower ''what is the'' = ''what is the''"
    by code_simp
  have "sublist ''what is the'' (lower q)"
  proof (rule disjE [OF occ])
    assume "sublist ''what is the'' q"
    then have "sublist (lower ''what is the'') (lower q)"
      unfolding lower_def by (rule map_mono_sublist)
    then show ?thesis by (simp only: lw)
  qed
  then have "any_in calc_words (lower q)"
    unfolding any_in_sublist by (auto simp: calc_words_def)
  moreover from nosafe have "\<not> any_in safety_words (lower q)"
    unfolding any_in_sublist .
  ultimately show "categorize_question q = ''calculation'' \<and> categorize_question q \<noteq> ''theory''"
    by (simp add: categorize_question_def)
qed

theorem what_is_the_is_calculation_witness:
  "sublist ''what is the'' (lower ''What is the difference between a CSTR and a PFR?'')
   \<and> (\<exists>w \<in> set theory_words. sublist w (lower ''What is the difference between a CSTR and a PFR?''))
   \<and> categorize_question ''What is the difference between a CSTR and a PFR?'' = ''calculation''
   \<and> categorize_question ''What is the difference between a CSTR and a PFR?'' \<noteq> ''theory''"
proof -
  have occ: "sublist ''what is the'' (lower ''What is the difference between a CSTR and a PFR?'')"
    unfolding str_in_sublist [symmetric] by code_simp
  have th: "\<exists>w \<in> set theory_words. sublist w (lower ''What is the difference between a CSTR and a PFR?'')"
    unfolding any_in_sublist [symmetric] by code_simp
  have nosafe: "\<not> (\<exists>w \<in> set safety_words.
                     sublist w (lower ''What is the difference between a CSTR and a PFR?''))"
    unfolding any_in_sublist [symmetric] by code_simp
  from what_is_the_is_calculation [of "''What is the difference between a CSTR and a PFR?''"]
    occ nosafe th
  show ?thesis by blast
qed

section \<open>Deduplication and ranking\<close>

lemma sorted_reverse_filter: "filter P (sorted_reverse k xs) = sorted_reverse k (filter P xs)"
proof -
  have "filter P (rev (sort_key k (rev xs))) = rev (filter P (sort_key k (rev xs)))"
    by (simp only: rev_filter)
  also have "\<dots> = rev (sort_key k (filter P (rev xs)))"
    by (simp only: filter_sort)
  also have "\<dots> = rev (sort_key k (rev (filter P xs)))"
    by (simp only: rev_filter)
  finally show ?thesis
    by (simp only: sorted_reverse_def)
qed

lemma sorted_reverse_short: "length xs \<le> 1 \<Longrightarrow> sorted_reverse k xs = xs"
  by (cases xs) (simp_all add: sorted_reverse_def)

lemma sorted_reverse_descending: "sorted_wrt (\<lambda>a b. k b \<le> k a) (sorted_reverse k xs)"
proof -
  have "sorted (map k (sort_key k (rev xs)))"
    by (rule sorted_sort_key)
  then have "sorted_wrt (\<lambda>x y. k x \<le> k y) (sort_key k (rev xs))"
    by (simp only: sorted_map)
  then show ?thesis
    by (simp only: sorted_reverse_def sorted_wrt_rev)
qed

lemma sorted_reverse_stable:
  "filter (\<lambda>y. k y = p) (sorted_reverse k xs) = filter (\<lambda>y. k y = p) xs"
proof -
  have "filter (\<lambda>y. k y = p) (sorted_reverse k xs)
          = rev (filter (\<lambda>y. k y = p) (sort_key k (rev xs)))"
    by (simp only: sorted_reverse_def rev_filter)
  also have "\<dots> = rev (filter (\<lambda>y. k y = p) (rev xs))"
    by (simp only: sort_key_stable)
  also have "\<dots> = filter (\<lambda>y. k y = p) xs"
    by (simp only: rev_filter rev_rev_ident)
  finally show ?thesis .
qed

lemma set_sorted_reverse: "set (sorted_reverse k xs) = set xs"
  by (simp add: sorted_reverse_def)

lemma unique_loop_filter:
  "filter (\<lambda>r. get_url r = u) (unique_loop seen acc rs)
     = filter (\<lambda>r. get_url r = u) acc
       @ (if u = [] \<or> u \<in> seen then [] else take 1 (filter (\<lambda>r. get_url r = u) rs))"
  by (induction rs arbitrary: seen acc) (auto simp: Let_def)

lemma unique_loop_acc: "unique_loop seen acc rs = acc @ unique_loop seen [] rs"
proof (induction rs arbitrary: seen acc)
  case Nil
  show ?case by simp
next
  case (Cons r rs)
  show ?case
    using Cons.IH [of "insert (get_url r) seen" "acc @ [r]"]
      Cons.IH [of "insert (get_url r) seen" "[r]"] Cons.IH [of seen acc]
    by (simp add: Let_def)
qed

lemma unique_loop_subseq: "subseq (unique_loop seen [] rs) rs"
proof (induction rs arbitrary: seen)
  case Nil
  show ?case by simp
next
  case (Cons r rs)
  show ?case
    using Cons.IH [of seen] Cons.IH [of "insert (get_url r) seen"]
      unique_loop_acc [of "insert (get_url r) seen" "[r]" rs]
    by (auto simp: Let_def)
qed

lemma unique_loop_urls: "set (unique_loop seen acc rs) \<subseteq> set acc \<union> {r. get_url r \<noteq> []}"
proof (induction rs arbitrary: seen acc)
  case Nil
  show ?case by simp
next
  case (Cons r rs)
  show ?case
  proof (cases "get_url r \<noteq> [] \<and> get_url r \<notin> seen")
    case True
    with Cons.IH [of "insert (get_url r) seen" "acc @ [r]"] show ?thesis
      by (auto simp: Let_def)
  next
    case False
    with Cons.IH [of seen acc] show ?thesis
      by (auto simp: Let_def)
  qed
qed

text \<open>
  C2. Deduplication keeps, for each non-empty url, the first candidate of the input with
  that url and drops the later ones, in input order; the kept candidates are then sorted by
  priority, highest first, and candidates of equal priority stay in the order they had before
  sorting. For three candidates with urls A, B, A (A and B non-empty and different) and
  priorities 1, 5, 9 the result is the second followed by the first.
\<close>

theorem deduplicate_results_first_seen_then_sorted:
  "(u \<noteq> [] \<longrightarrow>
      filter (\<lambda>r. get_url r = u) (unique_loop {} [] rs) = take 1 (filter (\<lambda>r. get_url r = u) rs))
   \<and> subseq (unique_loop {} [] rs) rs
   \<and> (u \<noteq> [] \<longrightarrow>
      filter (\<lambda>r. get_url r = u) (deduplicate_results rs) = take 1 (filter (\<lambda>r. get_url r = u) rs))
   \<and> sorted_wrt (\<lambda>x y. get_priority y \<le> get_priority x) (deduplicate_results rs)
   \<and> filter (\<lambda>r. get_priority r = p) (deduplicate_results rs)
       = filter (\<lambda>r. get_priority r = p) (unique_loop {} [] rs)
   \<and> (url a = Some A \<and> url b = Some B \<and> url c = Some A \<and> A \<noteq> [] \<and> B \<noteq> [] \<and> A \<noteq> B
       \<and> priority a = Some 1 \<and> priority b = Some 5 \<and> priority c = Some 9
       \<longrightarrow> deduplicate_results [a, b, c] = [b, a])"
proof (intro conjI impI)
  assume u: "u \<noteq> []"
  then show first: "filter (\<lambda>r. get_url r = u) (unique_loop {} [] rs)
                      = take 1 (filter (\<lambda>r. get_url r = u) rs)"
    by (simp add: unique_loop_filter)
  have "filter (\<lambda>r. get_url r = u) (deduplicate_results rs)
          = sorted_reverse get_priority (take 1 (filter (\<lambda>r. get_url r = u) rs))"
    by (simp only: deduplicate_results_def sorted_reverse_filter first)
  also have "\<dots> = take 1 (filter (\<lambda>r. get_url r = u) rs)"
    by (rule sorted_reverse_short) simp
  finally show "filter (\<lambda>r. get_url r = u) (deduplicate_results rs)
                  = take 1 (filter (\<lambda>r. get_url r = u) rs)" .
next
  show "subseq (unique_loop {} [] rs) rs"
    by (rule unique_loop_subseq)
next
  show "sorted_wrt (\<lambda>x y. get_priority y \<le> get_priority x) (deduplicate_results rs)"
    unfolding deduplicate_results_def by (rule sorted_reverse_descending)
next
  show "filter (\<lambda>r. get_priority r = p) (deduplicate_results rs)
          = filter (\<lambda>r. get_priority r = p) (unique_loop {} [] rs)"
    unfolding deduplicate_results_def by (rule sorted_reverse_stable)
next
  assume "url a = Some A \<and> url b = Some B \<and> url c = Some A \<and> A \<noteq> [] \<and> B \<noteq> [] \<and> A \<noteq> B
       \<and> priority a = Some 1 \<and> priority b = Some 5 \<and> priority c = Some 9"
  then show "deduplicate_results [a, b, c] = [b, a]"
    by (auto simp: deduplicate_results_def sorted_reverse_def get_url_def get_priority_def)
qed

theorem deduplicate_results_first_seen_then_sorted_witness:
  "deduplicate_results
     [\<lparr>title = ''first'', url = Some ''A'', snippet = None, source = None, priority = Some 1\<rparr>,
      \<lparr>title = ''second'', url = Some ''B'', snippet = None, source = None, priority = Some 5\<rparr>,
      \<lparr>title = ''third'', url = Some ''A'', snippet = None, source = None, priority = Some 9\<rparr>]
   = [\<lparr>title = ''second'', url = Some ''B'', snippet = None, source = None, priority = Some 5\<rparr>,
      \<lparr>title = ''first'', url = Some ''A'', snippet = None, source = None, priority = Some 1\<rparr>]
   \<and> filter (\<lambda>r. get_url r = ''A'')
        (deduplicate_results
          [\<lparr>title = ''first'', url = Some ''A'', snippet = None, source = None, priority = Some 1\<rparr>,
           \<lparr>title = ''second'', url = Some ''B'', snippet = None, source = None, priority = Some 5\<rparr>,
           \<lparr>title = ''third'', url = Some ''A'', snippet = None, source = None, priority = Some 9\<rparr>])
      = [\<lparr>title = ''first'', url = Some ''A'', snippet = None, source = None, priority = Some 1\<rparr>]"
  using deduplicate_results_first_seen_then_sorted
    [of "''A''"
        "[\<lparr>title = ''first'', url = Some ''A'', snippet = None, source = None, priority = Some 1\<rparr>,
          \<lparr>title = ''second'', url = Some ''B'', snippet = None, source = None, priority = Some 5\<rparr>,
          \<lparr>title = ''third'', url = Some ''A'', snippet = None, source = None, priority = Some 9\<rparr>]"
        1
        "\<lparr>title = ''first'', url = Some ''A'', snippet = None, source = None, priority = Some 1\<rparr>"
        "''A''"
        "\<lparr>title = ''second'', url = Some ''B'', snippet = None, source = None, priority = Some 5\<rparr>"
        "''B''"
        "\<lparr>title = ''third'', url = Some ''A'', snippet = None, source = None, priority = Some 9\<rparr>"]
  by (simp add: get_url_def)

text \<open>
  C3, as the specification states it, fails: a candidate whose url is empty does not pass
  the test \<open>if url and url not in seen_urls\<close>, so it is not kept. Two candidates with an
  empty url and one with a url deduplicate to the one with a url.
\<close>

theorem empty_url_candidates_kept_counterexample:
  "get_url \<lparr>title = ''one'', url = Some [], snippet = Some ''text'', source = Some ''Wikipedia'',
            priority = Some 8\<rparr> = []
   \<and> deduplicate_results
        [\<lparr>title = ''one'', url = Some [], snippet = Some ''text'', source = Some ''Wikipedia'',
          priority = Some 8\<rparr>,
         \<lparr>title = ''two'', url = Some [], snippet = Some ''more'', source = Some ''Wikipedia'',
          priority = Some 8\<rparr>,
         \<lparr>title = ''three'', url = Some ''https://a.example'', snippet = Some ''rest'',
          source = Some ''Educational'', priority = Some 7\<rparr>]
      = [\<lparr>title = ''three'', url = Some ''https://a.example'', snippet = Some ''rest'',
          source = Some ''Educational'', priority = Some 7\<rparr>]"
  by (simp add: deduplicate_results_def sorted_reverse_def get_url_def)

text \<open>
  C3, amended. During deduplication every candidate whose url is empty (or missing) is
  dropped: no candidate of the deduplicated result has an empty url, so an empty-url
  candidate of the input never reaches the result, and a list of empty-url candidates only
  deduplicates to the empty list.
\<close>

theorem empty_url_candidates_dropped:
  "(\<forall>r \<in> set (deduplicate_results rs). get_url r \<noteq> [])
   \<and> (r \<in> set rs \<and> get_url r = [] \<longrightarrow> r \<notin> set (deduplicate_results rs))
   \<and> ((\<forall>r \<in> set rs. get_url r = []) \<longrightarrow> deduplicate_results rs = [])"
proof -
  have sub: "set (deduplicate_results rs) \<subseteq> {r. get_url r \<noteq> []}"
    using unique_loop_urls [of "{}" "[]" rs]
    by (simp add: deduplicate_results_def set_sorted_reverse)
  have inp: "set (deduplicate_results rs) \<subseteq> set rs"
    using unique_loop_subseq [of "{}" rs]
    by (auto simp: deduplicate_results_def set_sorted_reverse elim: list_emb_set)
  have none: "deduplicate_results rs = []" if "\<forall>r \<in> set rs. get_url r = []"
  proof (cases "deduplicate_results rs")
    case Nil
    then show ?thesis .
  next
    case (Cons x xs)
    then have "x \<in> set (deduplicate_results rs)" by simp
    with sub inp have "get_url x \<noteq> []" and "x \<in> set rs" by auto
    with that show ?thesis by simp
  qed
  from sub have "\<forall>r \<in> set (deduplicate_results rs). get_url r \<noteq> []" by auto
  with none show ?thesis by auto
qed

theorem empty_url_candidates_dropped_witness:
  "deduplicate_results
     [\<lparr>title = ''one'', url = Some [], snippet = Some ''text'', source = Some ''Wikipedia'',
       priority = Some 8\<rparr>,
      \<lparr>title = ''two'', url = None, snippet = Some ''more'', source = Some ''Wikipedia'',
       priority = Some 8\<rparr>] = []"
proof -
  have "\<forall>r \<in> set [\<lparr>title = ''one'', url = Some [], snippet = Some ''text'',
                      source = Some ''Wikipedia'', priority = Some 8\<rparr>,
                     \<lparr>title = ''two'', url = None, snippet = Some ''more'',
                      source = Some ''Wikipedia'', priority = Some 8\<rparr>]. get_url r = []"
    by (simp add: get_url_def)
  with empty_url_candidates_dropped
    [of "[\<lparr>title = ''one'', url = Some [], snippet = Some ''text'',
           source = Some ''Wikipedia'', priority = Some 8\<rparr>,
          \<lparr>title = ''two'', url = None, snippet = Some ''more'',
           source = Some ''Wikipedia'', priority = Some 8\<rparr>]"]
  show ?thesis by blast
qed


section \<open>The context rendered into the prompt\<close>

lemma length_context_parts: "length (context_parts results) \<le> length results"
  by (induction results) (auto simp: Let_def)

lemma take_3_max_results: "take 3 (take max_results xs) = take 3 xs"
  by (simp add: max_results_def)

text \<open>
  C4. Whatever the two providers return for a query, the context has at most three
  entries: the rendered text is the join of the lines of the first three candidates of the
  deduplicated, priority-sorted list (one line for each of them with a non-empty snippet),
  and no other candidate contributes.
\<close>

theorem context_at_most_three_entries:
  "length (context_parts (take 3 (search_web search_wikipedia query))) \<le> 3
   \<and> take 3 (search_web search_wikipedia query)
       = take 3 (deduplicate_results
                  (search_wikipedia (query @ '' chemical engineering'')
                   @ search_educational_sites (query @ '' chemical engineering'')))
   \<and> get_relevant_context search_wikipedia query
       = join ''\<newline>\<newline>''
           (context_parts (take 3 (deduplicate_results
              (search_wikipedia (query @ '' chemical engineering'')
               @ search_educational_sites (query @ '' chemical engineering'')))))"
proof (intro conjI)
  have "length (context_parts (take 3 (search_web search_wikipedia query)))
          \<le> length (take 3 (search_web search_wikipedia query))"
    by (rule length_context_parts)
  also have "\<dots> \<le> 3"
    by simp
  finally show "length (context_parts (take 3 (search_web search_wikipedia query))) \<le> 3" .
next
  show top: "take 3 (search_web search_wikipedia query)
       = take 3 (deduplicate_results
                  (search_wikipedia (query @ '' chemical engineering'')
                   @ search_educational_sites (query @ '' chemical engineering'')))"
    by (simp only: search_web_def scrape_search_results_def Let_def take_3_max_results)
  have "get_relevant_context search_wikipedia query
          = join ''\<newline>\<newline>'' (context_parts (take 3 (search_web search_wikipedia query)))"
    by (simp add: get_relevant_context_def Let_def)
  then show "get_relevant_context search_wikipedia query
       = join ''\<newline>\<newline>''
           (context_parts (take 3 (deduplicate_results
              (search_wikipedia (query @ '' chemical engineering'')
               @ search_educational_sites (query @ '' chemical engineering'')))))"
    by (simp only: top)
qed

section \<open>Validation\<close>

lemma strip_by_ends: "s \<noteq> [] \<Longrightarrow> \<not> P (hd s) \<Longrightarrow> \<not> P (last s) \<Longrightarrow> strip_by P s = s"
proof -
  assume ne: "s \<noteq> []" and h: "\<not> P (hd s)" and l: "\<not> P (last s)"
  from ne h have "dropWhile P s = s"
    by (cases s) simp_all
  moreover from ne l have "dropWhile P (rev s) = rev s"
    by (cases "rev s") (simp_all add: hd_rev [symmetric] del: rev_is_Nil_conv)
  ultimately show ?thesis
    by (simp add: strip_by_def)
qed

lemma strip_ends: "s \<noteq> [] \<Longrightarrow> \<not> isspace_char (hd s) \<Longrightarrow> \<not> isspace_char (last s) \<Longrightarrow> strip s = s"
  unfolding strip_def by (rule strip_by_ends)

lemma strip_Nil: "strip [] = []"
  by (simp add: strip_def strip_by_def)

lemma strip_no_space: "s \<noteq> [] \<Longrightarrow> \<forall>c \<in> set s. \<not> isspace_char c \<Longrightarrow> strip s = s"
  by (rule strip_ends) simp_all

lemma length_lower: "length (lower s) = length s"
  by (simp add: lower_def)

lemma no_inappropriate_word_in_short:
  "length s < 4 \<Longrightarrow> \<not> (\<exists>w \<in> set inappropriate_words. sublist w s)"
  by (auto simp: inappropriate_words_def dest: sublist_length_le)

text \<open>
  C7, as the specification states it, fails in two places. A question of two spaces has
  trimmed length 0, below 3, and is rejected with the message of the empty question, not with
  the more-detail message. A question of 1001 characters made of \<open>ab\<close> and 999 spaces is
  longer than 1000 characters and is rejected with the more-detail message, not with the
  length message. The checks run in a fixed order and the first that fails gives the message.
\<close>

theorem validate_input_any_counterexample:
  "length (strip ''  '') < 3
   \<and> validate_input ''  '' = (False, ''Please enter a question.'')
   \<and> validate_input ''  '' \<noteq> (False, ''Please enter a more detailed question.'')
   \<and> length (''ab'' @ replicate 999 (CHR '' '')) > 1000
   \<and> validate_input (''ab'' @ replicate 999 (CHR '' ''))
       = (False, ''Please enter a more detailed question.'')
   \<and> validate_input (''ab'' @ replicate 999 (CHR '' ''))
       \<noteq> (False, ''Question is too long. Please keep it under 1000 characters.'')"
proof -
  have sp: "isspace_char (CHR '' '')" and a: "\<not> isspace_char (CHR ''a'')"
    and b: "\<not> isspace_char (CHR ''b'')"
    by (simp_all add: isspace_char_def isspace_def)
  have blank: "strip ''  '' = []"
    by (simp add: strip_def strip_by_def sp)
  have "dropWhile isspace_char (replicate 999 (CHR '' '') @ ''ba'') = ''ba''"
    by (simp add: dropWhile_append3 sp b)
  then have long: "strip (CHR ''a'' # CHR ''b'' # replicate 999 (CHR '' '')) = ''ab''"
    by (simp add: strip_def strip_by_def a)
  show ?thesis
    by (simp add: validate_input_def blank long)
qed

text \<open>
  C7, amended. Validation applies its checks in this order, and the first that fails
  decides: the empty question, and any question that is empty once trimmed, is rejected with
  the message of the empty question; a question whose trimmed length is 1 or 2 is rejected
  with the more-detail message; a question whose trimmed length is at least 3 and whose length
  is above 1000 is rejected with the length message; every question that contains a
  disallowed test token (in any letter case) is rejected, with the genuine-question message
  when the earlier checks pass; a question of exactly 3 characters, none of them white space,
  is accepted.
\<close>

theorem validate_input_checks_in_order:
  "validate_input [] = (False, ''Please enter a question.'')
   \<and> (strip q = [] \<longrightarrow> validate_input q = (False, ''Please enter a question.''))
   \<and> (strip q \<noteq> [] \<and> length (strip q) < 3
        \<longrightarrow> validate_input q = (False, ''Please enter a more detailed question.''))
   \<and> (3 \<le> length (strip q) \<and> 1000 < length q
        \<longrightarrow> validate_input q = (False, ''Question is too long. Please keep it under 1000 characters.''))
   \<and> ((\<exists>w \<in> set inappropriate_words. sublist w (lower q)) \<longrightarrow> \<not> fst (validate_input q))
   \<and> (3 \<le> length (strip q) \<and> length q \<le> 1000
        \<and> (\<exists>w \<in> set inappropriate_words. sublist w (lower q))
        \<longrightarrow> validate_input q = (False, ''Please enter a genuine chemical engineering question.''))
   \<and> (length q = 3 \<and> (\<forall>c \<in> set q. \<not> isspace_char c) \<longrightarrow> validate_input q = (True, []))"
proof (intro conjI impI)
  show "validate_input [] = (False, ''Please enter a question.'')"
    by (simp add: validate_input_def)
  show "validate_input q = (False, ''Please enter a question.'')" if "strip q = []"
    using that by (simp add: validate_input_def)
  show "validate_input q = (False, ''Please enter a more detailed question.'')"
    if "strip q \<noteq> [] \<and> length (strip q) < 3"
    using that by (auto simp: validate_input_def strip_def strip_by_def)
  show "validate_input q = (False, ''Question is too long. Please keep it under 1000 characters.'')"
    if "3 \<le> length (strip q) \<and> 1000 < length q"
    using that by (auto simp: validate_input_def)
  show "\<not> fst (validate_input q)" if "\<exists>w \<in> set inappropriate_words. sublist w (lower q)"
    using that by (simp add: validate_input_def any_in_sublist)
  show "validate_input q = (False, ''Please enter a genuine chemical engineering question.'')"
    if "3 \<le> length (strip q) \<and> length q \<le> 1000
        \<and> (\<exists>w \<in> set inappropriate_words. sublist w (lower q))"
    using that by (auto simp: validate_input_def any_in_sublist strip_Nil)
  show "validate_input q = (True, [])" if three: "length q = 3 \<and> (\<forall>c \<in> set q. \<not> isspace_char c)"
  proof -
    from three have ne: "q \<noteq> []" by auto
    with three have st: "strip q = q" by (simp add: strip_no_space)
    from three have "length (lower q) < 4" by (simp add: length_lower)
    then have "\<not> any_in inappropriate_words (lower q)"
      unfolding any_in_sublist by (rule no_inappropriate_word_in_short)
    with three ne st show ?thesis by (simp add: validate_input_def)
  qed
qed

theorem validate_input_checks_in_order_witness:
  "validate_input ''   '' = (False, ''Please enter a question.'')
   \<and> validate_input ''hi'' = (False, ''Please enter a more detailed question.'')
   \<and> validate_input (replicate 1001 (CHR ''x''))
       = (False, ''Question is too long. Please keep it under 1000 characters.'')
   \<and> validate_input ''Is this SPAM?''
       = (False, ''Please enter a genuine chemical engineering question.'')
   \<and> validate_input ''pH?'' = (True, [])"
proof -
  have h1: "strip ''   '' = []"
    by (simp add: strip_def strip_by_def isspace_char_def isspace_def)
  have h2: "strip ''hi'' \<noteq> [] \<and> length (strip ''hi'') < 3"
    by (simp add: strip_def strip_by_def isspace_char_def isspace_def)
  have x: "\<not> isspace_char (CHR ''x'')"
    by (simp add: strip_def strip_by_def isspace_char_def isspace_def)
  have "strip (replicate 1001 (CHR ''x'')) = replicate 1001 (CHR ''x'')"
    by (rule strip_no_space) (simp_all add: x)
  then have h3: "3 \<le> length (strip (replicate 1001 (CHR ''x'')))
                 \<and> 1000 < length (replicate 1001 (CHR ''x''))"
    by simp
  have h4: "3 \<le> length (strip ''Is this SPAM?'') \<and> length ''Is this SPAM?'' \<le> 1000"
    by (simp add: strip_def strip_by_def isspace_char_def isspace_def)
  have h4': "\<exists>w \<in> set inappropriate_words. sublist w (lower ''Is this SPAM?'')"
    unfolding any_in_sublist [symmetric] by code_simp
  have h5: "length ''pH?'' = 3 \<and> (\<forall>c \<in> set ''pH?''. \<not> isspace_char c)"
    by (simp add: strip_def strip_by_def isspace_char_def isspace_def)
  from validate_input_checks_in_order [of "''   ''"] h1
  have r1: "validate_input ''   '' = (False, ''Please enter a question.'')" by blast
  from validate_input_checks_in_order [of "''hi''"] h2
  have r2: "validate_input ''hi'' = (False, ''Please enter a more detailed question.'')" by blast
  from validate_input_checks_in_order [of "replicate 1001 (CHR ''x'')"] h3
  have r3: "validate_input (replicate 1001 (CHR ''x''))
              = (False, ''Question is too long. Please keep it under 1000 characters.'')" by blast
  from validate_input_checks_in_order [of "''Is this SPAM?''"] h4 h4'
  have r4: "validate_input ''Is this SPAM?''
              = (False, ''Please enter a genuine chemical engineering question.'')" by blast
  from validate_input_checks_in_order [of "''pH?''"] h5
  have r5: "validate_input ''pH?'' = (True, [])" by blast
  from r1 r2 r3 r4 r5 show ?thesis by blast
qed


section \<open>Source labels of a rendered context\<close>
























section \<open>Rejected questions in \<open>ask\<close>\<close>


lemma calls_time_time: "calls (snd (time_time e st)) = calls st @ [Time]"
  by (simp add: time_time_def)

lemma calls_generate_ai_response:
  "prefix (calls st) (calls (snd (generate_ai_response e st question qtype web_context)))"
  by (simp add: generate_ai_response_def Let_def split: sum.splits)

lemma calls_log_interaction:
  "log_interaction e st question response srcs = Inr st' \<Longrightarrow> calls st' = calls st"
  by (auto simp: log_interaction_def Let_def split: option.splits)

lemma ask_valid_reads_clock:
  "fst (validate_input question) \<Longrightarrow>
     prefix (calls st @ [Time]) (calls (snd (ask e st question include_web_search)))"
proof -
  assume v: "fst (validate_input question)"
  obtain t0 st1 where t: "time_time e st = (t0, st1)" by fastforce
  then have c1: "calls st1 = calls st @ [Time]"
    using calls_time_time [of e st] by simp
  define st2 where "st2 = (if include_web_search then st1\<lparr>calls := calls st1 @ [WebSearch question]\<rparr> else st1)"
  have c2: "prefix (calls st1) (calls st2)"
    by (simp add: st2_def)
  define ctx where "ctx = (if include_web_search then get_relevant_context (wikipedia e) question else [])"
  define srcs where "srcs = (if include_web_search \<and> ctx \<noteq> [] then extract_sources_from_context ctx else [])"
  obtain r st3 where g: "generate_ai_response e st2 question (categorize_question question) ctx = (r, st3)"
    by fastforce
  then have c3: "prefix (calls st2) (calls st3)"
    using calls_generate_ai_response [of st2 e question "categorize_question question" ctx] by simp
  obtain t1 st4 where t4: "time_time e st3 = (t1, st4)" by fastforce
  then have c4: "calls st4 = calls st3 @ [Time]"
    using calls_time_time [of e st3] by simp
  from c1 c2 c3 c4 have p4: "prefix (calls st @ [Time]) (calls st4)"
    by (metis prefix_order.order_trans prefixI)
  show ?thesis
  proof (cases "log_interaction e st4 question r srcs")
    case (Inl msg)
    with v t g t4 p4 show ?thesis
      by (cases include_web_search)
         (auto simp: ask_def Let_def st2_def ctx_def srcs_def time_time_def split: prod.splits)
  next
    case (Inr st5)
    then have "calls st5 = calls st4" by (rule calls_log_interaction)
    with Inr v t g t4 p4 show ?thesis
      by (cases include_web_search; cases "conversation_history st5")
         (auto simp: ask_def Let_def st2_def ctx_def srcs_def time_time_def split: prod.splits)
  qed
qed

text \<open>
  C8. When validation rejects the question, \<open>ask\<close> returns at once: the answer is the
  message of the validation, the list of sources is empty, the question type is the marker
  \<open>error\<close>, which is none of the five categories, and the processing time is 0. The state
  is the one before the call: nothing is appended to the conversation history or to the
  interaction log, and no clock reading, web search or completion request is made; the result
  does not depend on the outside world or on the web-search switch. (For a valid question
  the clock is read first, see \<open>ask_valid_reads_clock\<close>.)
\<close>

theorem ask_rejects_before_processing:
  "\<not> fst (validate_input question) \<longrightarrow>
     fst (ask e st question include_web_search)
       = \<lparr>answer = snd (validate_input question), sources = [], question_type = ''error'',
          processing_time = 0, web_context_used = None, error = None\<rparr>
     \<and> question_type (fst (ask e st question include_web_search))
         \<notin> {''calculation'', ''theory'', ''safety'', ''design'', ''general''}
     \<and> snd (ask e st question include_web_search) = st
     \<and> conversation_history (snd (ask e st question include_web_search)) = conversation_history st
     \<and> interaction_log (snd (ask e st question include_web_search)) = interaction_log st
     \<and> calls (snd (ask e st question include_web_search)) = calls st
     \<and> ask e' st question include_web_search' = ask e st question include_web_search"
  by (simp add: ask_def split: prod.splits)

theorem ask_rejects_before_processing_witness:
  "\<not> fst (validate_input ''hi'')
   \<and> ask \<lparr>wikipedia = (\<lambda>q. []), generate_content = (\<lambda>q t c. Inr ''Distil it.''),
          clock = (\<lambda>n. 2 * real n), current_time = ''unknown'', session_error = None\<rparr>
        \<lparr>is_initialized = True, conversation_history = Some [], interaction_log = [], calls = [Time]\<rparr>
        ''hi'' True
      = (\<lparr>answer = ''Please enter a more detailed question.'', sources = [],
          question_type = ''error'', processing_time = 0, web_context_used = None, error = None\<rparr>,
         \<lparr>is_initialized = True, conversation_history = Some [], interaction_log = [], calls = [Time]\<rparr>)"
proof -
  have v: "validate_input ''hi'' = (False, ''Please enter a more detailed question.'')"
    by (simp add: validate_input_def strip_def strip_by_def isspace_char_def isspace_def)
  then have nv: "\<not> fst (validate_input ''hi'')"
    by simp
  from ask_rejects_before_processing
         [of "''hi''"
             "\<lparr>wikipedia = (\<lambda>q. []), generate_content = (\<lambda>q t c. Inr ''Distil it.''),
               clock = (\<lambda>n. 2 * real n), current_time = ''unknown'', session_error = None\<rparr>"
             "\<lparr>is_initialized = True, conversation_history = Some [], interaction_log = [],
               calls = [Time]\<rparr>"
             True]
    nv v
  show ?thesis
    by (simp add: prod_eq_iff)
qed


section \<open>Cleaning is idempotent\<close>

lemma isspace_32: "isspace 32"
  by (simp add: isspace_def)

lemma single_spaced_Cons_nonspace: "\<not> isspace c \<Longrightarrow> single_spaced (c # s) = single_spaced s"
  by (cases s) simp_all

lemma single_spaced_Cons_space:
  "single_spaced (32 # s) = ((s = [] \<or> \<not> isspace (hd s)) \<and> single_spaced s)"
  by (cases s) (simp_all add: isspace_32)

lemma collapse_ws_hd: "s \<noteq> [] \<Longrightarrow> \<not> isspace (hd s) \<Longrightarrow> hd (collapse_ws s) = hd s"
  by (cases s) simp_all

lemma collapse_ws_Nil: "collapse_ws s = [] \<longleftrightarrow> s = []"
  by (cases s) simp_all

lemma single_spaced_collapse_ws: "single_spaced (collapse_ws s)"
proof (induction s rule: collapse_ws.induct)
  case 1
  show ?case by simp
next
  case (2 c s)
  show ?case
  proof (cases "isspace c")
    case True
    let ?d = "dropWhile isspace s"
    from True "2.IH"(1) have ih: "single_spaced (collapse_ws ?d)"
      by simp
    have "collapse_ws ?d = [] \<or> \<not> isspace (hd (collapse_ws ?d))"
    proof (cases "?d = []")
      case True
      then have "collapse_ws ?d = []"
        by (simp only: collapse_ws.simps)
      then show ?thesis
        by (rule disjI1)
    next
      case False
      then have "\<not> isspace (hd ?d)"
        by (rule hd_dropWhile)
      with False have "\<not> isspace (hd (collapse_ws ?d))"
        by (metis collapse_ws_hd)
      then show ?thesis
        by (rule disjI2)
    qed
    with ih True show ?thesis
      by (simp add: single_spaced_Cons_space)
  next
    case False
    with "2.IH"(2) show ?thesis
      by (simp add: single_spaced_Cons_nonspace)
  qed
qed

lemma single_spaced_append: "single_spaced (xs @ ys) \<Longrightarrow> single_spaced xs \<and> single_spaced ys"
proof (induction xs rule: single_spaced.induct)
  case 1
  then show ?case by simp
next
  case (2 c)
  then show ?case by (cases ys) simp_all
next
  case (3 c d s)
  then show ?case by simp
qed

lemma strip_by_decomp: "\<exists>pre post. s = pre @ strip_by P s @ post"
proof -
  let ?d = "dropWhile P s"
  let ?e = "dropWhile P (rev ?d)"
  have "rev ?e @ rev (takeWhile P (rev ?d)) = rev (takeWhile P (rev ?d) @ ?e)"
    by (simp only: rev_append)
  also have "\<dots> = rev (rev ?d)"
    by (simp only: takeWhile_dropWhile_id)
  also have "\<dots> = ?d"
    by (simp only: rev_rev_ident)
  finally have d: "rev ?e @ rev (takeWhile P (rev ?d)) = ?d" .
  have "s = takeWhile P s @ ?d"
    by (simp only: takeWhile_dropWhile_id)
  then have "s = takeWhile P s @ rev ?e @ rev (takeWhile P (rev ?d))"
    by (simp only: d)
  then have "s = takeWhile P s @ strip_by P s @ rev (takeWhile P (rev ?d))"
    by (simp only: strip_by_def)
  then show ?thesis
    by blast
qed

lemma single_spaced_strip_by: "single_spaced s \<Longrightarrow> single_spaced (strip_by P s)"
proof -
  assume ss: "single_spaced s"
  obtain pre post where "s = pre @ strip_by P s @ post"
    using strip_by_decomp by blast
  with ss have "single_spaced (pre @ strip_by P s @ post)"
    by simp
  then show ?thesis
    by (blast dest: single_spaced_append)
qed

lemma set_strip_by: "set (strip_by P s) \<subseteq> set s"
proof -
  obtain pre post where "s = pre @ strip_by P s @ post"
    using strip_by_decomp by blast
  then have "set s = set pre \<union> set (strip_by P s) \<union> set post"
    by (metis set_append sup_assoc)
  then show ?thesis by blast
qed

lemma strip_by_hd: "strip_by P s \<noteq> [] \<Longrightarrow> \<not> P (hd (strip_by P s))"
proof -
  let ?d = "dropWhile P s"
  let ?e = "dropWhile P (rev ?d)"
  assume "strip_by P s \<noteq> []"
  then have e: "?e \<noteq> []"
    by (simp add: strip_by_def)
  have d: "?d \<noteq> []"
  proof
    assume "?d = []"
    then have "?e = []"
      by (simp only: rev.simps dropWhile.simps)
    with e show False ..
  qed
  have "rev ?d = takeWhile P (rev ?d) @ ?e"
    by (simp only: takeWhile_dropWhile_id)
  with e have "last (rev ?d) = last ?e"
    by (metis last_appendR)
  with d have "last ?e = hd ?d"
    by (simp only: last_rev)
  moreover from d have "\<not> P (hd ?d)"
    by (rule hd_dropWhile)
  moreover from e have "hd (rev ?e) = last ?e"
    by (simp only: hd_rev)
  ultimately show ?thesis
    unfolding strip_by_def by metis
qed

lemma strip_by_last: "strip_by P s \<noteq> [] \<Longrightarrow> \<not> P (last (strip_by P s))"
proof -
  let ?e = "dropWhile P (rev (dropWhile P s))"
  assume "strip_by P s \<noteq> []"
  then have e: "?e \<noteq> []"
    by (simp add: strip_by_def)
  then have "\<not> P (hd ?e)"
    by (rule hd_dropWhile)
  moreover from e have "last (rev ?e) = hd ?e"
    by (simp only: last_rev)
  ultimately show ?thesis
    unfolding strip_by_def by metis
qed

lemma set_collapse_ws: "set (collapse_ws s) \<subseteq> insert 32 (set s)"
proof (induction s rule: collapse_ws.induct)
  case 1
  show ?case by simp
next
  case (2 c s)
  have "set (dropWhile isspace s) \<subseteq> set s"
    by (auto dest: set_dropWhileD)
  with 2 show ?case
    by (cases "isspace c") auto
qed


lemma split_ws_nonempty:
  "cur \<noteq> [] \<or> (s \<noteq> [] \<and> \<not> isspace (hd s)) \<Longrightarrow> split_ws cur s \<noteq> []"
  by (induction s arbitrary: cur) auto

lemma join_Cons: "rest \<noteq> [] \<Longrightarrow> join sep (x # rest) = x @ sep @ join sep rest"
  by (cases rest) simp_all

lemma join_split_ws_id:
  assumes "single_spaced s" and "s \<noteq> [] \<longrightarrow> \<not> isspace (last s)"
    and "cur = [] \<longrightarrow> s = [] \<or> \<not> isspace (hd s)"
  shows "join [32] (split_ws cur s) = cur @ s"
  using assms
proof (induction s arbitrary: cur)
  case Nil
  show ?case by simp
next
  case (Cons c s)
  show ?case
  proof (cases "isspace c")
    case True
    with Cons.prems(3) have cur: "cur \<noteq> []"
      by auto
    from True Cons.prems(2) have ne: "s \<noteq> []"
      by auto
    then obtain d s' where s: "s = d # s'"
      by (cases s) auto
    with True Cons.prems(1) have c: "c = 32" and d: "\<not> isspace d" and ss: "single_spaced s"
      by simp_all
    from ne Cons.prems(2) have l: "s \<noteq> [] \<longrightarrow> \<not> isspace (last s)"
      by simp
    from s d have h: "[] = [] \<longrightarrow> s = [] \<or> \<not> isspace (hd s)"
      by simp
    from Cons.IH [OF ss l h] have ih: "join [32] (split_ws [] s) = s"
      by simp
    from s d have "split_ws [] s \<noteq> []"
      by (intro split_ws_nonempty) simp
    then have "join [32] (cur # split_ws [] s) = cur @ [32] @ join [32] (split_ws [] s)"
      by (rule join_Cons)
    with True cur c ih show ?thesis
      by simp
  next
    case False
    with Cons.prems(1) have ss: "single_spaced s"
      by (simp add: single_spaced_Cons_nonspace)
    from Cons.prems(2) have l: "s \<noteq> [] \<longrightarrow> \<not> isspace (last s)"
      by auto
    have h: "cur @ [c] = [] \<longrightarrow> s = [] \<or> \<not> isspace (hd s)"
      by simp
    from Cons.IH [OF ss l h] False show ?thesis
      by simp
  qed
qed


lemma collapse_ws_id: "single_spaced s \<Longrightarrow> collapse_ws s = s"
proof (induction s rule: single_spaced.induct)
  case 1
  show ?case by simp
next
  case (2 c)
  then show ?case by simp
next
  case (3 c d s)
  from "3.prems" have ss: "single_spaced (d # s)"
    and sp: "isspace c \<longrightarrow> c = 32 \<and> \<not> isspace d"
    by simp_all
  from "3.IH" [OF ss] have ih: "collapse_ws (d # s) = d # s" .
  show ?case
  proof (cases "isspace c")
    case True
    with sp have c: "c = 32" and d: "\<not> isspace d"
      by simp_all
    from d have dw: "dropWhile isspace (d # s) = d # s"
      by simp
    from True have "collapse_ws (c # d # s) = 32 # collapse_ws (dropWhile isspace (d # s))"
      by (simp only: collapse_ws.simps if_True)
    then show ?thesis
      by (simp only: dw ih c)
  next
    case False
    then have "collapse_ws (c # d # s) = c # collapse_ws (d # s)"
      by (simp only: collapse_ws.simps if_False)
    then show ?thesis
      by (simp only: ih)
  qed
qed

lemma clean_text_empty: "clean_text isalnum None = []" "clean_text isalnum (Some []) = []"
  by (simp_all add: clean_text_def)

lemma clean_text_Some:
  "t \<noteq> [] \<Longrightarrow>
     clean_text isalnum (Some t)
       = strip_by isspace (collapse_ws (map (\<lambda>c. if kept isalnum c then c else 32)
                                            (join [32] (split_ws [] t))))"
  by (simp add: clean_text_def Let_def)

lemma clean_text_shape:
  "clean_text isalnum text = []
   \<or> (\<exists>u. clean_text isalnum text
             = strip_by isspace (collapse_ws (map (\<lambda>c. if kept isalnum c then c else 32) u)))"
proof (cases "text")
  case None
  then show ?thesis
    by (simp add: clean_text_empty)
next
  case (Some t)
  show ?thesis
  proof (cases "t = []")
    case True
    with Some show ?thesis
      by (simp add: clean_text_empty)
  next
    case False
    from clean_text_Some [OF False, of isalnum] Some show ?thesis
      by blast
  qed
qed

lemma kept_32: "kept isalnum 32"
  unfolding kept_def using isspace_32 by blast

lemma kept_strip_collapse:
  "\<forall>c \<in> set (strip_by isspace (collapse_ws (map (\<lambda>c. if kept isalnum c then c else 32) u))).
     kept isalnum c"
proof
  let ?t2 = "map (\<lambda>c. if kept isalnum c then c else 32) u"
  fix c
  assume "c \<in> set (strip_by isspace (collapse_ws ?t2))"
  with set_strip_by [of isspace "collapse_ws ?t2"] have "c \<in> set (collapse_ws ?t2)"
    by (rule subsetD)
  with set_collapse_ws [of ?t2] have "c \<in> insert 32 (set ?t2)"
    by (rule subsetD)
  then have "c = 32 \<or> c \<in> set ?t2"
    by simp
  then show "kept isalnum c"
  proof
    assume "c = 32"
    then show ?thesis by (simp only: kept_32)
  next
    assume "c \<in> set ?t2"
    then obtain x where "c = (if kept isalnum x then x else 32)"
      unfolding set_map by (elim imageE)
    then show ?thesis
      by (cases "kept isalnum x") (simp_all add: kept_32)
  qed
qed

lemma clean_text_tidy:
  "single_spaced (clean_text isalnum text)"
  "clean_text isalnum text \<noteq> [] \<longrightarrow>
     \<not> isspace (hd (clean_text isalnum text)) \<and> \<not> isspace (last (clean_text isalnum text))"
  "\<forall>c \<in> set (clean_text isalnum text). kept isalnum c"
proof -
  from clean_text_shape [of isalnum "text"]
  show "single_spaced (clean_text isalnum text)"
  proof
    assume "clean_text isalnum text = []"
    then show ?thesis by simp
  next
    assume "\<exists>u. clean_text isalnum text
              = strip_by isspace (collapse_ws (map (\<lambda>c. if kept isalnum c then c else 32) u))"
    then obtain u where u: "clean_text isalnum text
              = strip_by isspace (collapse_ws (map (\<lambda>c. if kept isalnum c then c else 32) u))" ..
    show ?thesis
      unfolding u by (rule single_spaced_strip_by) (rule single_spaced_collapse_ws)
  qed
  from clean_text_shape [of isalnum "text"]
  show "clean_text isalnum text \<noteq> [] \<longrightarrow>
     \<not> isspace (hd (clean_text isalnum text)) \<and> \<not> isspace (last (clean_text isalnum text))"
  proof
    assume "clean_text isalnum text = []"
    then show ?thesis by simp
  next
    assume "\<exists>u. clean_text isalnum text
              = strip_by isspace (collapse_ws (map (\<lambda>c. if kept isalnum c then c else 32) u))"
    then obtain u where u: "clean_text isalnum text
              = strip_by isspace (collapse_ws (map (\<lambda>c. if kept isalnum c then c else 32) u))" ..
    show ?thesis
      unfolding u using strip_by_hd strip_by_last by blast
  qed
  from clean_text_shape [of isalnum "text"]
  show "\<forall>c \<in> set (clean_text isalnum text). kept isalnum c"
  proof
    assume "clean_text isalnum text = []"
    then show ?thesis by simp
  next
    assume "\<exists>u. clean_text isalnum text
              = strip_by isspace (collapse_ws (map (\<lambda>c. if kept isalnum c then c else 32) u))"
    then obtain u where u: "clean_text isalnum text
              = strip_by isspace (collapse_ws (map (\<lambda>c. if kept isalnum c then c else 32) u))" ..
    show ?thesis
      unfolding u by (rule kept_strip_collapse)
  qed
qed

lemma clean_text_fixed:
  assumes "single_spaced r" and "r \<noteq> [] \<longrightarrow> \<not> isspace (hd r) \<and> \<not> isspace (last r)"
    and "\<forall>c \<in> set r. kept isalnum c"
  shows "clean_text isalnum (Some r) = r"
proof (cases "r = []")
  case True
  then show ?thesis by (simp add: clean_text_empty)
next
  case False
  from False assms(1,2) have t1: "join [32] (split_ws [] r) = r"
    using join_split_ws_id [of r "[]"] by simp
  from assms(3) have t2: "map (\<lambda>c. if kept isalnum c then c else 32) r = r"
    by (simp add: map_idI)
  from assms(1) have t3: "collapse_ws r = r"
    by (rule collapse_ws_id)
  from False assms(2) have t4: "strip_by isspace r = r"
    by (simp add: strip_by_ends)
  from clean_text_Some [OF False, of isalnum] show ?thesis
    by (simp only: t1 t2 t3 t4)
qed

text \<open>
  C6. Cleaning is idempotent: cleaning a cleaned text gives the cleaned text, for every
  text (also \<open>None\<close> and the empty one) and every table of alphanumeric code points.
\<close>

theorem clean_text_idempotent:
  "clean_text isalnum (Some (clean_text isalnum text)) = clean_text isalnum text"
  by (rule clean_text_fixed [OF clean_text_tidy(1) clean_text_tidy(2) clean_text_tidy(3)])

section \<open>What cleaning keeps\<close>

lemma clean_text_result:
  "single_spaced (clean_text isalnum text)
   \<and> (clean_text isalnum text \<noteq> [] \<longrightarrow>
        \<not> isspace (hd (clean_text isalnum text)) \<and> \<not> isspace (last (clean_text isalnum text)))
   \<and> (\<forall>c \<in> set (clean_text isalnum text). kept isalnum c)
   \<and> clean_text isalnum None = [] \<and> clean_text isalnum (Some []) = []"
  using clean_text_tidy [of isalnum "text"] clean_text_empty [of isalnum]
  by blast

text \<open>
  C5. The cleaned text has single spaces for runs of white space, no white space at its
  ends, and is empty for an empty or missing text (\<open>clean_text_result\<close>). But the class
  \<open>\w\<close> of the pattern matches the underscore besides the letters and digits, so an
  underscore is kept, although it is none of the characters the comment in
  \<open>clean_text\<close> lists (letters, numbers, spaces, parentheses, plus, minus, equals, slash,
  backslash, degrees, subscripts): \<open>_\<close> is cleaned to \<open>_\<close> and \<open>H_2O\<close> to \<open>H_2O\<close>.
\<close>

theorem clean_text_keeps_underscore:
  "clean_text isalnum (Some (codes ''_'')) = codes ''_''
   \<and> clean_text ascii_alnum (Some (codes ''H_2O'')) = codes ''H_2O''
   \<and> codes ''_'' = [95] \<and> \<not> ascii_alnum 95 \<and> \<not> isspace 95 \<and> 95 \<notin> set kept_literals"
  by (simp add: clean_text_def Let_def codes_def kept_def word_char_def kept_literals_def
        isspace_def strip_by_def ascii_alnum_def)

end
